theory Spec2Isabelle
  imports Main
begin

section \<open>The notebooks as Python programs\<close>

text \<open>
  The repository is two Jupyter notebooks.  A notebook is a list of cells; a code cell
  is a list of Python statements, a markdown cell is commentary.  The statements use a
  small fragment of Python: imports, assignments to a name, expression statements and
  one \<open>if\<close> without \<open>else\<close>.  The fragment modelled here has in addition
  \<open>try/except\<close>, so that "no cell handles an error" is a property of the notebooks
  and not of the datatype.  Source comments are not statements and are left out.
\<close>

datatype expr =
    Str string
  | Num int
  | NameConstant bool
  | Name string
  | Attribute expr string
  | Call expr "expr list" "(string \<times> expr) list"
  | Subscript expr expr
  | Dict "(expr \<times> expr) list"
  | NotEq expr expr

datatype stmt =
    Import "string list" "string option"
  | ImportFrom "string list" string
  | Assign string expr
  | Expr expr
  | If expr "stmt list"
  | Try "stmt list" "stmt list"

datatype cell =
    Markdown "string list"
  | Code "stmt list"

type_synonym notebook = "cell list"

subsection \<open>Expressions shared by both notebooks\<close>

text \<open>\<^verbatim>\<open>os.path.split(os.getcwd())[-1] != "notebooks"\<close>\<close>

definition not_in_notebooks :: expr where
  "not_in_notebooks =
     NotEq (Subscript
              (Call (Attribute (Attribute (Name ''os'') ''path'') ''split'')
                 [Call (Attribute (Name ''os'') ''getcwd'') [] []] [])
              (Num (- 1)))
           (Str ''notebooks'')"

text \<open>
  \<^verbatim>\<open>if os.path.split(os.getcwd())[-1] != "notebooks":\<close>
  \<^verbatim>\<open>    os.chdir(os.path.join(".."))\<close>
\<close>

definition chdir_guard :: stmt where
  "chdir_guard =
     If not_in_notebooks
       [Expr (Call (Attribute (Name ''os'') ''chdir'')
                [Call (Attribute (Attribute (Name ''os'') ''path'') ''join'') [Str ''..''] []] [])]"

text \<open>\<^verbatim>\<open>np.random.seed(0)\<close>\<close>

definition seed_zero :: stmt where
  "seed_zero = Expr (Call (Attribute (Attribute (Name ''np'') ''random'') ''seed'') [Num 0] [])"

text \<open>\<^verbatim>\<open>az.style.use('arviz-white')\<close>\<close>

definition style_cell :: cell where
  "style_cell =
     Code [Expr (Call (Attribute (Attribute (Name ''az'') ''style'') ''use'') [Str ''arviz-white''] [])]"

subsection \<open>notebooks/4_SingleModelResults/2_Stu_SingleModelVisualizations.ipynb\<close>

definition setup_cell_4_2 :: cell where
  "setup_cell_4_2 = Code
     [Import [''os''] None,
      Import [''arviz''] (Some ''az''),
      Import [''numpy''] (Some ''np''),
      Import [''pandas''] (Some ''pd''),
      Import [''matplotlib'', ''pyplot''] (Some ''plt''),
      chdir_guard,
      seed_zero]"

text \<open>\<^verbatim>\<open>v = az.from_netcdf(os.path.join("inference_data", f))\<close>\<close>

definition from_netcdf_cell :: "string \<Rightarrow> string \<Rightarrow> cell" where
  "from_netcdf_cell v f = Code
     [Assign v
        (Call (Attribute (Name ''az'') ''from_netcdf'')
           [Call (Attribute (Attribute (Name ''os'') ''path'') ''join'')
              [Str ''inference_data'', Str f] []] [])]"

text \<open>
  The line of the activity's markdown cell that names the inference files, as it stands
  in the notebook.  The other markdown cells are kept by their heading or first words.
\<close>

definition activity_files_line :: string where
  "activity_files_line =
     ''She was able to perform inference runs, these are contained in the files `GreenPower.nc`, `BudgetFertilizer.nc`, and `RootsGalore.nc`. She's been too busy to interpret the results and asked that you help by answering the following questions. Remember your friend is a statistician, so she'll want to know the highest posterior density.''"

definition activity_cell :: cell where
  "activity_cell = Markdown [''## Activity: Estimating treatment on plant growth'', activity_files_line]"

definition SingleModelVisualizations :: notebook where
  "SingleModelVisualizations =
     [Markdown [''# Section 4.2 Single Model Results Evaluation''],
      setup_cell_4_2,
      style_cell,
      activity_cell,
      Markdown [''### Exercise 1: Plot the Posterior Estimations of all three fertilizers''],
      Markdown [''#### Posterior Plots''],
      from_netcdf_cell ''greenpower'' ''GreenPower.nc'',
      from_netcdf_cell ''budgetfertilizer'' ''BudgetFertilizer.nc'',
      from_netcdf_cell ''rootsgalore'' ''RootsGalore.nc'',
      Markdown [''#### Forest Plots''],
      Code [],
      Markdown [''#### Summary Tables''],
      Code [],
      Markdown [''Just like the plots above, GreenPower is the best fertilizer for growth''],
      Markdown [''### Exercise 2: Give recommendations to your friend'']]"

subsection \<open>notebooks/5_ModelComparison/1_Ins_ModelComparison.ipynb\<close>

definition setup_cell_5_1 :: cell where
  "setup_cell_5_1 = Code
     [Import [''os''] None,
      Import [''time''] None,
      Import [''arviz''] (Some ''az''),
      Import [''numpy''] (Some ''np''),
      Import [''pymc3''] (Some ''pm''),
      Import [''scipy'', ''stats''] (Some ''stats''),
      seed_zero,
      chdir_guard,
      ImportFrom [''utils''] ''metropolis_hastings'',
      Assign ''NETCDF_DIR'' (Str ''inference_data'')]"

text \<open>\<^verbatim>\<open>az.load_arviz_data(name)\<close>\<close>

definition load_arviz_data :: "string \<Rightarrow> expr" where
  "load_arviz_data name = Call (Attribute (Name ''az'') ''load_arviz_data'') [Str name] []"

definition compare_cell :: cell where
  "compare_cell = Code
     [Assign ''data1'' (load_arviz_data ''non_centered_eight''),
      Assign ''data2'' (load_arviz_data ''centered_eight''),
      Assign ''compare_dict''
        (Dict [(Str ''non centered'', Name ''data1''), (Str ''centered'', Name ''data2'')]),
      Expr (Call (Attribute (Name ''az'') ''compare'') [Name ''compare_dict''] [])]"

definition compare_log_cell :: cell where
  "compare_log_cell = Code
     [Expr (Call (Attribute (Name ''az'') ''compare'') [Name ''compare_dict'']
              [(''scale'', Str ''log'')])]"

definition plot_compare_cell :: cell where
  "plot_compare_cell = Code
     [Assign ''model_compare''
        (Call (Attribute (Name ''az'') ''compare'')
           [Dict [(Str ''Centered 8 schools'', load_arviz_data ''centered_eight''),
                  (Str ''Non-centered 8 schools'', load_arviz_data ''non_centered_eight'')]] []),
      Expr (Call (Attribute (Name ''az'') ''plot_compare'') [Name ''model_compare'']
              [(''plot_ic_diff'', NameConstant True),
               (''plot_standard_error'', NameConstant True),
               (''insample_dev'', NameConstant True)])]"

definition ModelComparison :: notebook where
  "ModelComparison =
     [Markdown [''# Section 5.1 Model Comparison Methods''],
      setup_cell_5_1,
      style_cell,
      Markdown [''## Learning Objectives''],
      Markdown [''## Infinite parameters and Infinite Models''],
      Markdown [''### A history of Information Theory''],
      Markdown [''## Information criterion in detail''],
      Markdown [''## Compare''],
      compare_cell,
      compare_log_cell,
      Markdown [''Here we load two versions''],
      Markdown [''## Plot Compare''],
      plot_compare_cell,
      Markdown [''* The open circles are the WAIC values of each model.''],
      Markdown [''## Enough with the math, what's the practical advice''],
      Markdown [''## Additional Methods Pareto Smoothed Importance Sample Leave one out''],
      Markdown [''Leave One Out validation is another method to estimate a model's ability to fit unseen data.''],
      Code []]"

section \<open>Reading the notebooks' code\<close>

text \<open>Every expression occurring in an expression, the expression itself first.\<close>

fun subexprs :: "expr \<Rightarrow> expr list" where
  "subexprs (Attribute e a) = Attribute e a # subexprs e"
| "subexprs (Call f as kws) =
     Call f as kws # subexprs f @ concat (map subexprs as) @ concat (map (\<lambda>(k, e). subexprs e) kws)"
| "subexprs (Subscript e i) = Subscript e i # subexprs e @ subexprs i"
| "subexprs (Dict items) = Dict items # concat (map (\<lambda>(k, v). subexprs k @ subexprs v) items)"
| "subexprs (NotEq a b) = NotEq a b # subexprs a @ subexprs b"
| "subexprs e = [e]"

text \<open>Every statement occurring in a statement, the statement itself first.\<close>

fun substmts :: "stmt \<Rightarrow> stmt list" where
  "substmts (If c body) = If c body # concat (map substmts body)"
| "substmts (Try body handler) =
     Try body handler # concat (map substmts body) @ concat (map substmts handler)"
| "substmts s = [s]"

fun stmt_exprs :: "stmt \<Rightarrow> expr list" where
  "stmt_exprs (Assign x e) = [e]"
| "stmt_exprs (Expr e) = [e]"
| "stmt_exprs (If c body) = [c]"
| "stmt_exprs s = []"

fun cell_stmts :: "cell \<Rightarrow> stmt list" where
  "cell_stmts (Code ss) = ss"
| "cell_stmts (Markdown ls) = []"

definition code_cells :: "notebook \<Rightarrow> stmt list list" where
  "code_cells nb = map cell_stmts (filter (\<lambda>c. case c of Code ss \<Rightarrow> True | Markdown ls \<Rightarrow> False) nb)"

definition top_level :: "notebook \<Rightarrow> stmt list" where
  "top_level nb = concat (map cell_stmts nb)"

definition statements :: "notebook \<Rightarrow> stmt list" where
  "statements nb = concat (map substmts (top_level nb))"

definition expressions_in :: "stmt list \<Rightarrow> expr list" where
  "expressions_in ss = concat (map subexprs (concat (map stmt_exprs ss)))"


text \<open>
  A dotted name \<^verbatim>\<open>a.b.c\<close> read as the list of its parts; the name an import statement
  binds and the module or member it stands for; a callee read through the imports.
\<close>

fun dotted :: "expr \<Rightarrow> string list option" where
  "dotted (Name x) = Some [x]"
| "dotted (Attribute e a) = map_option (\<lambda>q. q @ [a]) (dotted e)"
| "dotted e = None"

fun import_binding :: "stmt \<Rightarrow> (string \<times> string list) option" where
  "import_binding (Import m (Some a)) = Some (a, m)"
| "import_binding (Import (h # m) None) = Some (h, [h])"
| "import_binding (ImportFrom m n) = Some (n, m @ [n])"
| "import_binding s = None"

definition imports_of :: "notebook \<Rightarrow> (string \<times> string list) list" where
  "imports_of nb = rev (List.map_filter import_binding (statements nb))"


definition resolve :: "(string \<times> string list) list \<Rightarrow> expr \<Rightarrow> string list option" where
  "resolve bs f =
     (case dotted f of
        Some (h # rest) \<Rightarrow> map_option (\<lambda>m. m @ rest) (map_of bs h)
      | _ \<Rightarrow> None)"

fun callee_of :: "expr \<Rightarrow> expr option" where
  "callee_of (Call f as kws) = Some f"
| "callee_of e = None"







section \<open>Running the notebooks\<close>

subsection \<open>Values, errors and the state of the Python process\<close>

text \<open>
  \<open>VRef q\<close> is a module, or a member of one, by its qualified name (\<open>az.compare\<close> after
  \<^verbatim>\<open>import arviz as az\<close> is \<open>VRef [''arviz'', ''compare'']\<close>); \<open>VObject\<close> is an object of a
  library the notebook cannot look into (an inference result, a comparison table, a
  plot).
\<close>

datatype val =
    VNone
  | VBool bool
  | VInt int
  | VStr string
  | VTuple "val list"
  | VDict "(val \<times> val) list"
  | VRef "string list"
  | VObject nat

datatype error =
    NameError string
  | AttributeError string
  | TypeError
  | ValueError
  | IndexError
  | KeyError
  | FileNotFoundError string
  | LibraryError string

text \<open>
  NumPy's global generator: as the process found it (from the system's entropy), or
  seeded with a value and advanced by a number of draws since.
\<close>

datatype rng_state = Unseeded nat | Seeded nat nat

datatype lib_call =
  LibCall (callee: "string list") (args: "val list") (kwargs: "(string \<times> val) list")
          (result: "error + val")

text \<open>
  The state a cell runs in: the working directory (the names from the root down; what
  \<^verbatim>\<open>os.getcwd()\<close> returns is normalised and absolute), the generator, the plotting
  styles applied so far, the notebook's global names (the newest binding first) and the
  calls made so far into the libraries, each with what it returned or raised.
\<close>

record world =
  cwd :: "string list"
  rng :: rng_state
  style :: "string list"
  globals :: "(string \<times> val) list"
  trace :: "lib_call list"

text \<open>
  The libraries are not code of this repository.  A library is a parameter: what a call
  of a qualified name returns or raises, and how it leaves the generator, given the
  arguments and the state of the process (the files on disk are part of the function).
\<close>

type_synonym library =
  "string list \<Rightarrow> val list \<Rightarrow> (string \<times> val) list \<Rightarrow> world \<Rightarrow> (error + val) \<times> rng_state"

subsection \<open>The functions of \<open>os\<close> and \<open>numpy.random\<close> the setup cells use\<close>

text \<open>\<^verbatim>\<open>os.getcwd()\<close>, on POSIX.\<close>

definition os_getcwd :: "string list \<Rightarrow> string" where
  "os_getcwd cs = (if cs = [] then ''/'' else concat (map (\<lambda>c. CHR ''/'' # c) cs))"

text \<open>
  \<^verbatim>\<open>posixpath.split\<close>: the tail is what follows the last slash; the head is the rest,
  without its trailing slashes unless it is all slashes.
\<close>

definition os_path_split :: "string \<Rightarrow> string \<times> string" where
  "os_path_split p =
     (let tail = rev (takeWhile (\<lambda>c. c \<noteq> CHR ''/'') (rev p));
          head = take (length p - length tail) p
      in (if head \<noteq> [] \<and> head \<noteq> replicate (length head) (CHR ''/'')
          then rev (dropWhile (\<lambda>c. c = CHR ''/'') (rev head)) else head,
          tail))"

text \<open>\<^verbatim>\<open>posixpath.join(a, *p)\<close>\<close>

fun os_path_join :: "string \<Rightarrow> string list \<Rightarrow> string" where
  "os_path_join path [] = path"
| "os_path_join path (b # bs) =
     os_path_join
       (if b \<noteq> [] \<and> hd b = CHR ''/'' then b
        else if path = [] \<or> last path = CHR ''/'' then path @ b
        else path @ ''/'' @ b) bs"

text \<open>A string cut at every occurrence of a character.\<close>

fun split_on :: "char \<Rightarrow> string \<Rightarrow> string list" where
  "split_on d [] = [[]]"
| "split_on d (c # cs) =
     (if c = d then [] # split_on d cs
      else (case split_on d cs of [] \<Rightarrow> [[c]] | x # xs \<Rightarrow> (c # x) # xs))"

text \<open>
  Where \<^verbatim>\<open>os.chdir(p)\<close> leads from a directory: \<open>..\<close> is the parent (the root is its own
  parent), \<open>.\<close> and an empty part change nothing, a name goes down.
\<close>

definition chdir_step :: "string list \<Rightarrow> string \<Rightarrow> string list" where
  "chdir_step d c = (if c = [] \<or> c = ''.'' then d else if c = ''..'' then butlast d else d @ [c])"

definition chdir_target :: "string list \<Rightarrow> string \<Rightarrow> string list" where
  "chdir_target d p = foldl chdir_step (if p \<noteq> [] \<and> hd p = CHR ''/'' then [] else d) (split_on (CHR ''/'') p)"

text \<open>
  A path that only goes up names an ancestor of the working directory, which exists:
  changing to it does not depend on the files on disk.
\<close>

definition upward :: "string \<Rightarrow> bool" where
  "upward p = (p \<noteq> [] \<and> hd p \<noteq> CHR ''/'' \<and> list_all (\<lambda>c. c = [] \<or> c = ''.'' \<or> c = ''..'') (split_on (CHR ''/'') p))"

fun str_arg :: "val list \<Rightarrow> string option" where
  "str_arg [VStr s] = Some s"
| "str_arg vs = None"

fun int_arg :: "val list \<Rightarrow> int option" where
  "int_arg [VInt n] = Some n"
| "int_arg vs = None"

fun str_args :: "val list \<Rightarrow> string list option" where
  "str_args [] = Some []"
| "str_args (VStr s # vs) = map_option (\<lambda>ss. s # ss) (str_args vs)"
| "str_args (v # vs) = None"

text \<open>
  What a successful call is known to do to the process beside returning:
  \<^verbatim>\<open>os.chdir\<close> changes the working directory, \<^verbatim>\<open>az.style.use\<close> the plotting style.
\<close>

definition known_effect :: "string list \<Rightarrow> val list \<Rightarrow> world \<Rightarrow> world" where
  "known_effect q vs w =
     (if q = [''os'', ''chdir''] then
        (case str_arg vs of Some p \<Rightarrow> w\<lparr>cwd := chdir_target (cwd w) p\<rparr> | None \<Rightarrow> w)
      else if q = [''arviz'', ''style'', ''use''] then
        (case str_arg vs of Some s \<Rightarrow> w\<lparr>style := style w @ [s]\<rparr> | None \<Rightarrow> w)
      else w)"

text \<open>A call into a library: the library answers, the call is recorded.\<close>

definition library_call ::
  "library \<Rightarrow> string list \<Rightarrow> val list \<Rightarrow> (string \<times> val) list \<Rightarrow> world \<Rightarrow> (error + val) \<times> world" where
  "library_call lib q vs kvs w =
     (let r = fst (lib q vs kvs w);
          w1 = w\<lparr>rng := snd (lib q vs kvs w), trace := trace w @ [LibCall q vs kvs r]\<rparr>
      in (r, case r of Inl err \<Rightarrow> w1 | Inr v \<Rightarrow> known_effect q vs w1))"

definition call_function ::
  "library \<Rightarrow> string list \<Rightarrow> val list \<Rightarrow> (string \<times> val) list \<Rightarrow> world \<Rightarrow> (error + val) \<times> world" where
  "call_function lib q vs kvs w =
     (if q = [''os'', ''getcwd''] then
        (if vs = [] \<and> kvs = [] then (Inr (VStr (os_getcwd (cwd w))), w) else (Inl TypeError, w))
      else if q = [''os'', ''path'', ''split''] then
        (case str_arg vs of
           Some p \<Rightarrow>
             if kvs = [] then (Inr (VTuple [VStr (fst (os_path_split p)), VStr (snd (os_path_split p))]), w)
             else (Inl TypeError, w)
         | None \<Rightarrow> (Inl TypeError, w))
      else if q = [''os'', ''path'', ''join''] then
        (case str_args vs of
           Some (a # p) \<Rightarrow> if kvs = [] then (Inr (VStr (os_path_join a p)), w) else (Inl TypeError, w)
         | _ \<Rightarrow> (Inl TypeError, w))
      else if q = [''os'', ''chdir''] \<and> kvs = [] \<and> (case str_arg vs of Some p \<Rightarrow> upward p | None \<Rightarrow> False) then
        (Inr VNone, known_effect q vs w)
      else if q = [''numpy'', ''random'', ''seed''] then
        (case int_arg vs of
           Some n \<Rightarrow>
             if kvs \<noteq> [] then (Inl TypeError, w)
             else if 0 \<le> n \<and> n < 2 ^ 32 then (Inr VNone, w\<lparr>rng := Seeded (nat n) 0\<rparr>)
             else (Inl ValueError, w)
         | None \<Rightarrow> (Inl TypeError, w))
      else library_call lib q vs kvs w)"

subsection \<open>Expressions\<close>

fun get_attr :: "val \<Rightarrow> string \<Rightarrow> error + val" where
  "get_attr (VRef q) a = Inr (VRef (q @ [a]))"
| "get_attr v a = Inl (AttributeError a)"

text \<open>Python's indexing: a negative index counts from the end, out of range raises.\<close>

fun subscript :: "val \<Rightarrow> val \<Rightarrow> error + val" where
  "subscript (VTuple vs) (VInt i) =
     (if 0 \<le> i \<and> i < int (length vs) then Inr (vs ! nat i)
      else if i < 0 \<and> - i \<le> int (length vs) then Inr (vs ! nat (int (length vs) + i))
      else Inl IndexError)"
| "subscript (VDict kvs) k = (case map_of kvs k of Some v \<Rightarrow> Inr v | None \<Rightarrow> Inl KeyError)"
| "subscript v i = Inl TypeError"

fun truthy :: "val \<Rightarrow> bool" where
  "truthy VNone = False"
| "truthy (VBool b) = b"
| "truthy (VInt n) = (n \<noteq> 0)"
| "truthy (VStr s) = (s \<noteq> [])"
| "truthy (VTuple vs) = (vs \<noteq> [])"
| "truthy (VDict kvs) = (kvs \<noteq> [])"
| "truthy v = True"

text \<open>
  Evaluation goes left to right and stops at the first error, which it returns with
  the state reached: the callee first, then the arguments, then the keyword arguments,
  then the call.
\<close>

function eval :: "library \<Rightarrow> expr \<Rightarrow> world \<Rightarrow> (error + val) \<times> world"
  and eval_args :: "library \<Rightarrow> expr list \<Rightarrow> world \<Rightarrow> (error + val list) \<times> world"
  and eval_kws :: "library \<Rightarrow> (string \<times> expr) list \<Rightarrow> world \<Rightarrow> (error + (string \<times> val) list) \<times> world"
  and eval_items :: "library \<Rightarrow> (expr \<times> expr) list \<Rightarrow> world \<Rightarrow> (error + (val \<times> val) list) \<times> world"
where
  "eval lib (Str s) w = (Inr (VStr s), w)"
| "eval lib (Num n) w = (Inr (VInt n), w)"
| "eval lib (NameConstant b) w = (Inr (VBool b), w)"
| "eval lib (Name x) w =
     (case map_of (globals w) x of None \<Rightarrow> (Inl (NameError x), w) | Some v \<Rightarrow> (Inr v, w))"
| "eval lib (Attribute e a) w =
     (case eval lib e w of
        (Inl err, w1) \<Rightarrow> (Inl err, w1)
      | (Inr v, w1) \<Rightarrow> (get_attr v a, w1))"
| "eval lib (Call f as kws) w =
     (case eval lib f w of
        (Inl err, w1) \<Rightarrow> (Inl err, w1)
      | (Inr fv, w1) \<Rightarrow>
          (case eval_args lib as w1 of
             (Inl err, w2) \<Rightarrow> (Inl err, w2)
           | (Inr vs, w2) \<Rightarrow>
               (case eval_kws lib kws w2 of
                  (Inl err, w3) \<Rightarrow> (Inl err, w3)
                | (Inr kvs, w3) \<Rightarrow>
                    (case fv of
                       VRef q \<Rightarrow> call_function lib q vs kvs w3
                     | _ \<Rightarrow> (Inl TypeError, w3)))))"
| "eval lib (Subscript e i) w =
     (case eval lib e w of
        (Inl err, w1) \<Rightarrow> (Inl err, w1)
      | (Inr v, w1) \<Rightarrow>
          (case eval lib i w1 of
             (Inl err, w2) \<Rightarrow> (Inl err, w2)
           | (Inr j, w2) \<Rightarrow> (subscript v j, w2)))"
| "eval lib (Dict items) w =
     (case eval_items lib items w of
        (Inl err, w1) \<Rightarrow> (Inl err, w1)
      | (Inr kvs, w1) \<Rightarrow> (Inr (VDict kvs), w1))"
| "eval lib (NotEq a b) w =
     (case eval lib a w of
        (Inl err, w1) \<Rightarrow> (Inl err, w1)
      | (Inr x, w1) \<Rightarrow>
          (case eval lib b w1 of
             (Inl err, w2) \<Rightarrow> (Inl err, w2)
           | (Inr y, w2) \<Rightarrow> (Inr (VBool (x \<noteq> y)), w2)))"
| "eval_args lib [] w = (Inr [], w)"
| "eval_args lib (e # es) w =
     (case eval lib e w of
        (Inl err, w1) \<Rightarrow> (Inl err, w1)
      | (Inr v, w1) \<Rightarrow>
          (case eval_args lib es w1 of
             (Inl err, w2) \<Rightarrow> (Inl err, w2)
           | (Inr vs, w2) \<Rightarrow> (Inr (v # vs), w2)))"
| "eval_kws lib [] w = (Inr [], w)"
| "eval_kws lib ((k, e) # kws) w =
     (case eval lib e w of
        (Inl err, w1) \<Rightarrow> (Inl err, w1)
      | (Inr v, w1) \<Rightarrow>
          (case eval_kws lib kws w1 of
             (Inl err, w2) \<Rightarrow> (Inl err, w2)
           | (Inr kvs, w2) \<Rightarrow> (Inr ((k, v) # kvs), w2)))"
| "eval_items lib [] w = (Inr [], w)"
| "eval_items lib ((ke, ve) # items) w =
     (case eval lib ke w of
        (Inl err, w1) \<Rightarrow> (Inl err, w1)
      | (Inr k, w1) \<Rightarrow>
          (case eval lib ve w1 of
             (Inl err, w2) \<Rightarrow> (Inl err, w2)
           | (Inr v, w2) \<Rightarrow>
               (case eval_items lib items w2 of
                  (Inl err, w3) \<Rightarrow> (Inl err, w3)
                | (Inr kvs, w3) \<Rightarrow> (Inr ((k, v) # kvs), w3))))"
  by pat_completeness auto
termination
  by (relation "measure (\<lambda>x. case x of
        Inl (Inl (lib, e, w)) \<Rightarrow> size e
      | Inl (Inr (lib, es, w)) \<Rightarrow> size_list size es
      | Inr (Inl (lib, kws, w)) \<Rightarrow> size_list (size_prod (\<lambda>k. 0) size) kws
      | Inr (Inr (lib, items, w)) \<Rightarrow> size_list (size_prod size size) items)") auto

subsection \<open>Statements, cells, notebooks\<close>

definition bind_name :: "string \<Rightarrow> val \<Rightarrow> world \<Rightarrow> world" where
  "bind_name x v w = w\<lparr>globals := (x, v) # globals w\<rparr>"

text \<open>
  A statement returns the error it raised, if any, with the state reached.  An import
  binds its name (the modules are taken to be installed); \<open>try\<close> runs its handler from
  the state in which the body raised.
\<close>

function exec :: "library \<Rightarrow> stmt \<Rightarrow> world \<Rightarrow> error option \<times> world"
  and exec_block :: "library \<Rightarrow> stmt list \<Rightarrow> world \<Rightarrow> error option \<times> world"
where
  "exec lib (Import m a) w =
     (case import_binding (Import m a) of
        Some (x, q) \<Rightarrow> (None, bind_name x (VRef q) w)
      | None \<Rightarrow> (None, w))"
| "exec lib (ImportFrom m n) w = (None, bind_name n (VRef (m @ [n])) w)"
| "exec lib (Assign x e) w =
     (case eval lib e w of
        (Inl err, w1) \<Rightarrow> (Some err, w1)
      | (Inr v, w1) \<Rightarrow> (None, bind_name x v w1))"
| "exec lib (Expr e) w =
     (case eval lib e w of
        (Inl err, w1) \<Rightarrow> (Some err, w1)
      | (Inr v, w1) \<Rightarrow> (None, w1))"
| "exec lib (If c body) w =
     (case eval lib c w of
        (Inl err, w1) \<Rightarrow> (Some err, w1)
      | (Inr v, w1) \<Rightarrow> if truthy v then exec_block lib body w1 else (None, w1))"
| "exec lib (Try body handler) w =
     (case exec_block lib body w of
        (Some err, w1) \<Rightarrow> exec_block lib handler w1
      | (None, w1) \<Rightarrow> (None, w1))"
| "exec_block lib [] w = (None, w)"
| "exec_block lib (s # ss) w =
     (case exec lib s w of
        (Some err, w1) \<Rightarrow> (Some err, w1)
      | (None, w1) \<Rightarrow> exec_block lib ss w1)"
  by pat_completeness auto
termination
  by (relation "measure (\<lambda>x. case x of
        Inl (lib, s, w) \<Rightarrow> size s
      | Inr (lib, ss, w) \<Rightarrow> size_list size ss)") auto

fun run_cell :: "library \<Rightarrow> cell \<Rightarrow> world \<Rightarrow> error option \<times> world" where
  "run_cell lib (Markdown ls) w = (None, w)"
| "run_cell lib (Code ss) w = exec_block lib ss w"

text \<open>Running a notebook from the top stops at the first cell that raises.\<close>

fun run_notebook :: "library \<Rightarrow> notebook \<Rightarrow> world \<Rightarrow> error option \<times> world" where
  "run_notebook lib [] w = (None, w)"
| "run_notebook lib (c # cs) w =
     (case run_cell lib c w of
        (Some err, w1) \<Rightarrow> (Some err, w1)
      | (None, w1) \<Rightarrow> run_notebook lib cs w1)"

section \<open>Vocabulary of the properties\<close>

subsection \<open>Processes and libraries to run the notebooks with\<close>

text \<open>
  A process as Jupyter starts it in a directory: no names bound, no style applied, no call
  made, the generator as the system's entropy left it.
\<close>

definition fresh_kernel :: "string list \<Rightarrow> nat \<Rightarrow> world" where
  "fresh_kernel d entropy = \<lparr>cwd = d, rng = Unseeded entropy, style = [], globals = [], trace = []\<rparr>"

text \<open>
  Two libraries to run the notebooks with: one where every call succeeds, returns a new
  object and leaves the generator alone, and one where in addition no inference file is
  on disk, so that \<^verbatim>\<open>az.from_netcdf\<close> raises.
\<close>

definition installed :: library where
  "installed q vs kvs w = (Inr (VObject (length (trace w))), rng w)"

definition missing_files :: library where
  "missing_files q vs kvs w =
     (if q = [''arviz'', ''from_netcdf'']
      then (Inl (FileNotFoundError (case str_arg vs of Some p \<Rightarrow> p | None \<Rightarrow> [])), rng w)
      else installed q vs kvs w)"

subsection \<open>The working directory\<close>

text \<open>A working directory as \<^verbatim>\<open>os.getcwd()\<close> can return it: no name is empty or has a slash.\<close>

definition path_ok :: "string list \<Rightarrow> bool" where
  "path_ok d = list_all (\<lambda>c. c \<noteq> [] \<and> CHR ''/'' \<notin> set c) d"

definition named_notebooks :: "string list \<Rightarrow> bool" where
  "named_notebooks d = (d \<noteq> [] \<and> last d = ''notebooks'')"

subsection \<open>Errors that reach the user\<close>

definition succeeded :: "lib_call \<Rightarrow> bool" where
  "succeeded c = (case result c of Inr v \<Rightarrow> True | Inl e \<Rightarrow> False)"

text \<open>
  A run that ended with \<open>r\<close> after the library calls \<open>cs\<close> let every failure through:
  a call that raised is the last call made, and what it raised is what the run ended
  with.
\<close>

fun propagated :: "error option \<Rightarrow> lib_call list \<Rightarrow> bool" where
  "propagated r [] = True"
| "propagated r [c] = (case result c of Inl e \<Rightarrow> r = Some e | Inr v \<Rightarrow> True)"
| "propagated r (c # cs) = (succeeded c \<and> propagated r cs)"

fun try_free :: "stmt \<Rightarrow> bool" where
  "try_free (If c body) = list_all try_free body"
| "try_free (Try body handler) = False"
| "try_free s = True"

definition clean :: "world \<Rightarrow> bool" where
  "clean w = list_all succeeded (trace w)"

definition raised :: "error \<Rightarrow> world \<Rightarrow> bool" where
  "raised e w = propagated (Some e) (trace w)"

definition settled :: "(error + 'a) \<times> world \<Rightarrow> bool" where
  "settled p = (case fst p of Inr v \<Rightarrow> clean (snd p) | Inl e \<Rightarrow> raised e (snd p))"

definition stopped :: "error option \<times> world \<Rightarrow> bool" where
  "stopped p = (case fst p of None \<Rightarrow> clean (snd p) | Some e \<Rightarrow> raised e (snd p))"

subsection \<open>Code that leaves the state of the process alone\<close>

text \<open>
  The members whose call changes the state of the process beside the libraries' own
  objects: \<^verbatim>\<open>os.chdir\<close>, \<^verbatim>\<open>az.style.use\<close>, \<^verbatim>\<open>np.random.seed\<close>.  An expression is quiet
  when each of its calls is of a member \<^verbatim>\<open>f.a\<close> with another name.
\<close>

definition state_changing :: "string list" where
  "state_changing = [''chdir'', ''use'', ''seed'']"

fun quiet :: "expr \<Rightarrow> bool" where
  "quiet (Attribute e a) = quiet e"
| "quiet (Call f as kws) =
     ((case f of Attribute g a \<Rightarrow> a \<notin> set state_changing | _ \<Rightarrow> False) \<and>
      quiet f \<and> list_all quiet as \<and> list_all (\<lambda>(k, e). quiet e) kws)"
| "quiet (Subscript e i) = (quiet e \<and> quiet i)"
| "quiet (Dict items) = list_all (\<lambda>(k, v). quiet k \<and> quiet v) items"
| "quiet (NotEq a b) = (quiet a \<and> quiet b)"
| "quiet e = True"

fun quiet_stmt :: "stmt \<Rightarrow> bool" where
  "quiet_stmt (Assign x e) = quiet e"
| "quiet_stmt (Expr e) = quiet e"
| "quiet_stmt (If c body) = (quiet c \<and> list_all quiet_stmt body)"
| "quiet_stmt (Try body handler) = (list_all quiet_stmt body \<and> list_all quiet_stmt handler)"
| "quiet_stmt s = True"

text \<open>
  From \<open>w\<close> to \<open>w'\<close> the working directory and the plotting style are the same, calls
  were only added to the trace, and the generator is the same unless a library was
  called.
\<close>

definition undisturbed :: "world \<Rightarrow> world \<Rightarrow> bool" where
  "undisturbed w w' =
     (cwd w' = cwd w \<and> style w' = style w \<and> take (length (trace w)) (trace w') = trace w \<and>
      (length (trace w) < length (trace w') \<or> rng w' = rng w))"

subsection \<open>Libraries and the repository's own modules\<close>
















text \<open>The callees of the calls inside a statement, read through a notebook's imports.\<close>

definition callees_in :: "notebook \<Rightarrow> stmt \<Rightarrow> string list option list" where
  "callees_in nb s =
     List.map_filter (\<lambda>e. map_option (resolve (imports_of nb)) (callee_of e))
       (expressions_in (substmts s))"


text \<open>The statements of a cell that run before \<^verbatim>\<open>np.random.seed(0)\<close>, and the calls in them.\<close>

definition before_seed :: "cell \<Rightarrow> stmt list" where
  "before_seed c = takeWhile (\<lambda>s. s \<noteq> seed_zero) (cell_stmts c)"

definition calls_before_seed :: "notebook \<Rightarrow> cell \<Rightarrow> string list option list" where
  "calls_before_seed nb c = concat (map (callees_in nb) (before_seed c))"

subsection \<open>Loading inference results\<close>









subsection \<open>Where inference results flow\<close>











section \<open>Facts about the model\<close>

lemma notebooks_have_cells: "length SingleModelVisualizations = 15 \<and> length ModelComparison = 18"
  by (simp add: SingleModelVisualizations_def ModelComparison_def)

lemmas cell_defs =
  setup_cell_4_2_def setup_cell_5_1_def chdir_guard_def seed_zero_def not_in_notebooks_def
  style_cell_def from_netcdf_cell_def load_arviz_data_def compare_cell_def compare_log_cell_def
  plot_compare_cell_def activity_cell_def

lemmas run_defs = call_function_def bind_name_def known_effect_def library_call_def

subsection \<open>The setup cells\<close>

lemma upward_parent: "upward ''..''"
  by (simp add: upward_def)

lemma chdir_parent: "chdir_target d ''..'' = butlast d"
  by (simp add: chdir_target_def chdir_step_def)

lemma getcwd_snoc: "os_getcwd (d @ [c]) = concat (map (\<lambda>c. CHR ''/'' # c) d) @ CHR ''/'' # c"
  by (simp add: os_getcwd_def)

lemma split_tail_snoc:
  assumes "CHR ''/'' \<notin> set c"
  shows "snd (os_path_split (p @ CHR ''/'' # c)) = c"
proof -
  have "takeWhile (\<lambda>x. x \<noteq> CHR ''/'') (rev c @ CHR ''/'' # rev p) = rev c"
    using assms by (auto simp: takeWhile_tail)
  then show ?thesis by (simp add: os_path_split_def Let_def)
qed

text \<open>The last part of what \<^verbatim>\<open>os.getcwd()\<close> returns is the directory's own name.\<close>

lemma basename_cwd:
  assumes "path_ok d"
  shows "snd (os_path_split (os_getcwd d)) = (if d = [] then [] else last d)"
proof (cases d rule: rev_cases)
  case Nil
  then show ?thesis by (simp add: os_getcwd_def os_path_split_def)
next
  case (snoc ds c)
  with assms have "CHR ''/'' \<notin> set c" by (simp add: path_ok_def)
  with snoc show ?thesis by (simp add: getcwd_snoc split_tail_snoc)
qed

lemma in_notebooks_iff:
  assumes "path_ok d"
  shows "(snd (os_path_split (os_getcwd d)) = ''notebooks'') = named_notebooks d"
  using assms by (auto simp: basename_cwd named_notebooks_def)

text \<open>What the setup cells do, for every library and every state they start in.\<close>

lemma setup_4_2_run:
  "run_cell lib setup_cell_4_2 w =
     (None, w\<lparr>globals := (''plt'', VRef [''matplotlib'', ''pyplot'']) # (''pd'', VRef [''pandas'']) #
                 (''np'', VRef [''numpy'']) # (''az'', VRef [''arviz'']) # (''os'', VRef [''os'']) # globals w,
              cwd := (if snd (os_path_split (os_getcwd (cwd w))) = ''notebooks'' then cwd w else butlast (cwd w)),
              rng := Seeded 0 0\<rparr>)"
  by (simp add: cell_defs run_defs upward_parent chdir_parent)

lemma setup_5_1_run:
  "run_cell lib setup_cell_5_1 w =
     (None, w\<lparr>globals := (''NETCDF_DIR'', VStr ''inference_data'') #
                 (''metropolis_hastings'', VRef [''utils'', ''metropolis_hastings'']) #
                 (''stats'', VRef [''scipy'', ''stats'']) # (''pm'', VRef [''pymc3'']) #
                 (''np'', VRef [''numpy'']) # (''az'', VRef [''arviz'']) # (''time'', VRef [''time'']) #
                 (''os'', VRef [''os'']) # globals w,
              cwd := (if snd (os_path_split (os_getcwd (cwd w))) = ''notebooks'' then cwd w else butlast (cwd w)),
              rng := Seeded 0 0\<rparr>)"
  by (simp add: cell_defs run_defs upward_parent chdir_parent)

lemma path_ok_butlast: "path_ok d \<Longrightarrow> path_ok (butlast d)"
  by (auto simp: path_ok_def list_all_iff dest: in_set_butlastD)

lemma butlast_same: "(butlast d = d) = (d = [])"
  by (cases d rule: rev_cases) auto

lemma butlast_empty: "(butlast d = []) = (length d \<le> 1)"
  by (cases d rule: rev_cases) auto

lemma butlast_fixed: "(butlast (butlast d) = butlast d) = (length d \<le> 1)"
  by (simp add: butlast_same butlast_empty)

subsection \<open>An error of a library ends the run\<close>

lemma clean_propagated: "list_all succeeded tr \<Longrightarrow> propagated r tr"
  by (induction r tr rule: propagated.induct) (auto simp: succeeded_def split: sum.splits)

lemma propagated_snoc:
  "list_all succeeded tr \<Longrightarrow> propagated (Some e) (tr @ [LibCall q vs kvs (Inl e)])"
  by (induction "Some e" tr rule: propagated.induct) (auto simp: succeeded_def)

lemma clean_raised: "clean w \<Longrightarrow> raised e w"
  by (simp add: clean_def raised_def clean_propagated)

lemma trace_known_effect [simp]: "trace (known_effect q vs w) = trace w"
  by (simp add: known_effect_def split: option.splits)

lemma settled_simps [simp]:
  "settled (Inr v, w) = clean w" "settled (Inl e, w) = raised e w"
  by (simp_all add: settled_def)

lemma clean_settled: "clean w \<Longrightarrow> settled (r, w)"
  by (cases r) (simp_all add: clean_raised)

lemma call_function_settled:
  assumes "clean w"
  shows "settled (call_function lib q vs kvs w)"
proof (cases "call_function lib q vs kvs w = library_call lib q vs kvs w")
  case True
  with assms show ?thesis
    by (auto simp: settled_def library_call_def Let_def clean_def raised_def succeeded_def propagated_snoc
             split: sum.splits)
next
  case False
  then have "trace (snd (call_function lib q vs kvs w)) = trace w"
    by (auto simp: call_function_def split: if_splits option.splits list.splits)
  with assms show ?thesis
    by (simp add: settled_def clean_def raised_def clean_propagated split: sum.splits)
qed

text \<open>
  Evaluating an expression from a state in which no call has failed ends either with a
  value and still no failed call, or with an error of which the trace tells: if a call
  failed it is the last one and the error is its error.
\<close>

lemma eval_settled:
  "clean w \<longrightarrow> settled (eval lib e w)"
  "clean w \<longrightarrow> settled (eval_args lib es w)"
  "clean w \<longrightarrow> settled (eval_kws lib kws w)"
  "clean w \<longrightarrow> settled (eval_items lib items w)"
proof (induction lib e w and lib es w and lib kws w and lib items w
       rule: eval_eval_args_eval_kws_eval_items.induct)
  case (6 lib f as kws w)
  then show ?case
    by (auto simp: clean_raised call_function_settled split: prod.splits sum.splits val.splits)
qed (auto simp: clean_raised clean_settled split: option.splits prod.splits sum.splits)

lemma stopped_simps [simp]:
  "stopped (None, w) = clean w" "stopped (Some e, w) = raised e w"
  by (simp_all add: stopped_def)

lemma exec_stopped:
  "try_free s \<longrightarrow> clean w \<longrightarrow> stopped (exec lib s w)"
  "list_all try_free ss \<longrightarrow> clean w \<longrightarrow> stopped (exec_block lib ss w)"
proof (induction lib s w and lib ss w rule: exec_exec_block.induct)
  case (3 lib x e w)
  then show ?case
    using eval_settled(1)[of w lib e] by (auto simp: bind_name_def clean_def split: prod.splits sum.splits)
next
  case (4 lib e w)
  then show ?case
    using eval_settled(1)[of w lib e] by (auto split: prod.splits sum.splits)
next
  case (5 lib c body w)
  then show ?case
    using eval_settled(1)[of w lib c] by (auto split: prod.splits sum.splits)
qed (auto simp: bind_name_def clean_def split: option.splits prod.splits)

lemma run_cell_stopped:
  "list_all try_free (cell_stmts c) \<Longrightarrow> clean w \<Longrightarrow> stopped (run_cell lib c w)"
  by (cases c) (simp_all add: exec_stopped)

lemma run_notebook_stopped:
  "list_all try_free (top_level nb) \<Longrightarrow> clean w \<Longrightarrow> stopped (run_notebook lib nb w)"
proof (induction nb arbitrary: w)
  case Nil
  then show ?case by simp
next
  case (Cons c cs)
  then have "stopped (run_cell lib c w)" by (simp add: run_cell_stopped top_level_def)
  with Cons show ?case by (auto simp: top_level_def split: prod.splits option.splits)
qed

lemma stopped_propagated: "stopped p \<Longrightarrow> propagated (fst p) (trace (snd p))"
  by (cases p) (auto simp: stopped_def clean_def raised_def clean_propagated split: option.splits)

subsection \<open>Quiet code leaves the process alone\<close>

lemma undisturbed_refl [simp]: "undisturbed w w"
  by (simp add: undisturbed_def)

lemma take_prefix_le:
  assumes "take (length xs) ys = xs"
  shows "length xs \<le> length ys"
proof -
  have "length (take (length xs) ys) = length xs" using assms by simp
  then show ?thesis by simp
qed

lemma undisturbed_trans:
  assumes a: "undisturbed w w1" and b: "undisturbed w1 w2"
  shows "undisturbed w w2"
proof -
  from a have l1: "length (trace w) \<le> length (trace w1)"
    by (simp add: undisturbed_def take_prefix_le)
  from b have l2: "length (trace w1) \<le> length (trace w2)"
    by (simp add: undisturbed_def take_prefix_le)
  have "take (length (trace w)) (trace w2) = take (length (trace w)) (take (length (trace w1)) (trace w2))"
    using l1 by (simp add: min_def)
  also have "\<dots> = trace w" using a b by (simp add: undisturbed_def)
  finally have t: "take (length (trace w)) (trace w2) = trace w" .
  from a b have c: "cwd w2 = cwd w" "style w2 = style w" by (simp_all add: undisturbed_def)
  from a b l1 l2 have r: "length (trace w) < length (trace w2) \<or> rng w2 = rng w"
    unfolding undisturbed_def by auto
  from t c r show ?thesis by (simp add: undisturbed_def)
qed

lemma undisturbed_library_call:
  assumes "q \<noteq> [''os'', ''chdir'']" and "q \<noteq> [''arviz'', ''style'', ''use'']"
  shows "undisturbed w (snd (library_call lib q vs kvs w))"
  using assms
  by (cases "fst (lib q vs kvs w)") (simp_all add: library_call_def known_effect_def Let_def undisturbed_def)

lemma last_differs: "a \<noteq> b \<Longrightarrow> q @ [a] \<noteq> p @ [b]"
  by simp

lemma call_quiet:
  assumes "a \<notin> set state_changing"
  shows "undisturbed w (snd (call_function lib (q @ [a]) vs kvs w))"
proof -
  have a: "a \<noteq> ''chdir''" "a \<noteq> ''use''" "a \<noteq> ''seed''"
    using assms by (simp_all add: state_changing_def)
  have ne: "q @ [a] \<noteq> [''os'', ''chdir'']" "q @ [a] \<noteq> [''numpy'', ''random'', ''seed'']"
     "q @ [a] \<noteq> [''arviz'', ''style'', ''use'']"
    using last_differs[OF a(1), of q "[''os'']"] last_differs[OF a(3), of q "[''numpy'', ''random'']"]
      last_differs[OF a(2), of q "[''arviz'', ''style'']"] by simp_all
  show ?thesis
    unfolding call_function_def
    using a undisturbed_library_call[OF ne(1) ne(3), of w lib vs kvs]
    by (simp split: option.splits list.splits)
qed

lemma attribute_value:
  assumes "eval lib (Attribute g a) w = (Inr fv, w1)"
  shows "\<exists>q. fv = VRef (q @ [a])"
proof -
  obtain r0 w0 where e0: "eval lib g w = (r0, w0)" by (cases "eval lib g w")
  show ?thesis
  proof (cases r0)
    case (Inl err)
    with e0 assms show ?thesis by simp
  next
    case (Inr v)
    with e0 assms have "get_attr v a = Inr fv" by simp
    then show ?thesis by (cases v) auto
  qed
qed

text \<open>
  The callee of a quiet call is a member \<^verbatim>\<open>f.a\<close>, so the function called has \<open>a\<close> as
  the last part of its name, whatever \<open>f\<close> is bound to: it is none of the three that
  change the process.
\<close>

lemma eval_quiet:
  "quiet e \<longrightarrow> undisturbed w (snd (eval lib e w))"
  "list_all quiet es \<longrightarrow> undisturbed w (snd (eval_args lib es w))"
  "list_all (\<lambda>(k, e). quiet e) kws \<longrightarrow> undisturbed w (snd (eval_kws lib kws w))"
  "list_all (\<lambda>(k, v). quiet k \<and> quiet v) items \<longrightarrow> undisturbed w (snd (eval_items lib items w))"
proof (induction lib e w and lib es w and lib kws w and lib items w
       rule: eval_eval_args_eval_kws_eval_items.induct)
  case (1 lib s w)
  show ?case by simp
next
  case (2 lib n w)
  show ?case by simp
next
  case (3 lib b w)
  show ?case by simp
next
  case (4 lib x w)
  show ?case by (simp split: option.splits)
next
  case (5 lib e a w)
  then show ?case by (auto split: prod.splits sum.splits)
next
  case (6 lib f as kws w)
  show ?case
  proof
    assume q: "quiet (Call f as kws)"
    then obtain g a where f: "f = Attribute g a" and a: "a \<notin> set state_changing"
      by (cases f) auto
    from q have qf: "quiet f" and qa: "list_all quiet as" and qk: "list_all (\<lambda>(k, e). quiet e) kws"
      by simp_all
    obtain rf w1 where e1: "eval lib f w = (rf, w1)" by (cases "eval lib f w")
    have u1: "undisturbed w w1" using "6.IH"(1) qf e1 by simp
    show "undisturbed w (snd (eval lib (Call f as kws) w))"
    proof (cases rf)
      case (Inl err)
      with e1 u1 show ?thesis by simp
    next
      case (Inr fv)
      obtain ra w2 where e2: "eval_args lib as w1 = (ra, w2)" by (cases "eval_args lib as w1")
      have u2: "undisturbed w1 w2" using "6.IH"(2)[OF e1[symmetric] Inr] qa e2 by simp
      have u12: "undisturbed w w2" using u1 u2 by (rule undisturbed_trans)
      show ?thesis
      proof (cases ra)
        case (Inl err)
        with e1 Inr e2 u12 show ?thesis by simp
      next
        case vs: (Inr vs)
        obtain rk w3 where e3: "eval_kws lib kws w2 = (rk, w3)" by (cases "eval_kws lib kws w2")
        have u3: "undisturbed w2 w3"
          using "6.IH"(3)[OF e1[symmetric] Inr e2[symmetric] vs] qk e3 by simp
        have u13: "undisturbed w w3" using u12 u3 by (rule undisturbed_trans)
        show ?thesis
        proof (cases rk)
          case (Inl err)
          with e1 Inr e2 vs e3 u13 show ?thesis by simp
        next
          case kvs: (Inr kvs)
          from attribute_value e1 Inr f obtain q where fv: "fv = VRef (q @ [a])" by blast
          have "undisturbed w3 (snd (call_function lib (q @ [a]) vs kvs w3))"
            using call_quiet[OF a] .
          with u13 have "undisturbed w (snd (call_function lib (q @ [a]) vs kvs w3))"
            by (rule undisturbed_trans)
          with e1 Inr e2 vs e3 kvs fv show ?thesis by simp
        qed
      qed
    qed
  qed
next
  case (7 lib e i w)
  show ?case
  proof
    assume q: "quiet (Subscript e i)"
    obtain r1 w1 where e1: "eval lib e w = (r1, w1)" by (cases "eval lib e w")
    have u1: "undisturbed w w1" using "7.IH"(1) q e1 by simp
    show "undisturbed w (snd (eval lib (Subscript e i) w))"
    proof (cases r1)
      case (Inl err)
      with e1 u1 show ?thesis by simp
    next
      case (Inr v)
      have "undisturbed w1 (snd (eval lib i w1))"
        using "7.IH"(2)[OF e1[symmetric] Inr] q by simp
      with u1 have "undisturbed w (snd (eval lib i w1))" by (rule undisturbed_trans)
      with e1 Inr show ?thesis by (auto split: prod.splits sum.splits)
    qed
  qed
next
  case (8 lib items w)
  show ?case
  proof
    assume "quiet (Dict items)"
    then have "undisturbed w (snd (eval_items lib items w))" using "8.IH" by simp
    then show "undisturbed w (snd (eval lib (Dict items) w))"
      by (cases "eval_items lib items w") (simp split: sum.splits)
  qed
next
  case (9 lib a b w)
  show ?case
  proof
    assume q: "quiet (NotEq a b)"
    obtain r1 w1 where e1: "eval lib a w = (r1, w1)" by (cases "eval lib a w")
    have u1: "undisturbed w w1" using "9.IH"(1) q e1 by simp
    show "undisturbed w (snd (eval lib (NotEq a b) w))"
    proof (cases r1)
      case (Inl err)
      with e1 u1 show ?thesis by simp
    next
      case (Inr v)
      have "undisturbed w1 (snd (eval lib b w1))"
        using "9.IH"(2)[OF e1[symmetric] Inr] q by simp
      with u1 have "undisturbed w (snd (eval lib b w1))" by (rule undisturbed_trans)
      with e1 Inr show ?thesis by (auto split: prod.splits sum.splits)
    qed
  qed
next
  case (10 lib w)
  show ?case by simp
next
  case (11 lib e es w)
  show ?case
  proof
    assume q: "list_all quiet (e # es)"
    obtain r1 w1 where e1: "eval lib e w = (r1, w1)" by (cases "eval lib e w")
    have u1: "undisturbed w w1" using "11.IH"(1) q e1 by simp
    show "undisturbed w (snd (eval_args lib (e # es) w))"
    proof (cases r1)
      case (Inl err)
      with e1 u1 show ?thesis by simp
    next
      case (Inr v)
      have "undisturbed w1 (snd (eval_args lib es w1))"
        using "11.IH"(2)[OF e1[symmetric] Inr] q by simp
      with u1 have "undisturbed w (snd (eval_args lib es w1))" by (rule undisturbed_trans)
      with e1 Inr show ?thesis by (auto split: prod.splits sum.splits)
    qed
  qed
next
  case (12 lib w)
  show ?case by simp
next
  case (13 lib k e kws w)
  show ?case
  proof
    assume q: "list_all (\<lambda>(k, e). quiet e) ((k, e) # kws)"
    obtain r1 w1 where e1: "eval lib e w = (r1, w1)" by (cases "eval lib e w")
    have u1: "undisturbed w w1" using "13.IH"(1) q e1 by simp
    show "undisturbed w (snd (eval_kws lib ((k, e) # kws) w))"
    proof (cases r1)
      case (Inl err)
      with e1 u1 show ?thesis by simp
    next
      case (Inr v)
      have "undisturbed w1 (snd (eval_kws lib kws w1))"
        using "13.IH"(2)[OF e1[symmetric] Inr] q by simp
      with u1 have "undisturbed w (snd (eval_kws lib kws w1))" by (rule undisturbed_trans)
      with e1 Inr show ?thesis by (auto split: prod.splits sum.splits)
    qed
  qed
next
  case (14 lib w)
  show ?case by simp
next
  case (15 lib ke ve items w)
  show ?case
  proof
    assume q: "list_all (\<lambda>(k, v). quiet k \<and> quiet v) ((ke, ve) # items)"
    obtain r1 w1 where e1: "eval lib ke w = (r1, w1)" by (cases "eval lib ke w")
    have u1: "undisturbed w w1" using "15.IH"(1) q e1 by simp
    show "undisturbed w (snd (eval_items lib ((ke, ve) # items) w))"
    proof (cases r1)
      case (Inl err)
      with e1 u1 show ?thesis by simp
    next
      case (Inr k)
      obtain r2 w2 where e2: "eval lib ve w1 = (r2, w2)" by (cases "eval lib ve w1")
      have "undisturbed w1 w2" using "15.IH"(2)[OF e1[symmetric] Inr] q e2 by simp
      with u1 have u12: "undisturbed w w2" by (rule undisturbed_trans)
      show ?thesis
      proof (cases r2)
        case (Inl err)
        with e1 Inr e2 u12 show ?thesis by simp
      next
        case v: (Inr v)
        have "undisturbed w2 (snd (eval_items lib items w2))"
          using "15.IH"(3)[OF e1[symmetric] Inr e2[symmetric] v] q by simp
        with u12 have "undisturbed w (snd (eval_items lib items w2))" by (rule undisturbed_trans)
        with e1 Inr e2 v show ?thesis by (auto split: prod.splits sum.splits)
      qed
    qed
  qed
qed

lemma undisturbed_bind [simp]: "undisturbed w (bind_name x v w') = undisturbed w w'"
  by (simp add: bind_name_def undisturbed_def)

lemma exec_quiet:
  "quiet_stmt s \<longrightarrow> undisturbed w (snd (exec lib s w))"
  "list_all quiet_stmt ss \<longrightarrow> undisturbed w (snd (exec_block lib ss w))"
proof (induction lib s w and lib ss w rule: exec_exec_block.induct)
  case (1 lib m a w)
  show ?case by (simp split: option.splits prod.splits)
next
  case (2 lib m n w)
  show ?case by simp
next
  case (3 lib x e w)
  show ?case
    using eval_quiet(1)[of e w lib] by (cases "eval lib e w") (auto split: sum.splits)
next
  case (4 lib e w)
  show ?case
    using eval_quiet(1)[of e w lib] by (cases "eval lib e w") (auto split: sum.splits)
next
  case (5 lib c body w)
  show ?case
  proof
    assume q: "quiet_stmt (If c body)"
    obtain r1 w1 where e1: "eval lib c w = (r1, w1)" by (cases "eval lib c w")
    have u1: "undisturbed w w1" using eval_quiet(1)[of c w lib] q e1 by simp
    show "undisturbed w (snd (exec lib (If c body) w))"
    proof (cases r1)
      case (Inl err)
      with e1 u1 show ?thesis by simp
    next
      case (Inr v)
      show ?thesis
      proof (cases "truthy v")
        case True
        have "undisturbed w1 (snd (exec_block lib body w1))"
          using "5.IH"[OF e1[symmetric] Inr True] q by simp
        with u1 have "undisturbed w (snd (exec_block lib body w1))" by (rule undisturbed_trans)
        with e1 Inr True show ?thesis by simp
      next
        case False
        with e1 Inr u1 show ?thesis by simp
      qed
    qed
  qed
next
  case (6 lib body handler w)
  show ?case
  proof
    assume q: "quiet_stmt (Try body handler)"
    obtain r1 w1 where e1: "exec_block lib body w = (r1, w1)" by (cases "exec_block lib body w")
    have u1: "undisturbed w w1" using "6.IH"(1) q e1 by simp
    show "undisturbed w (snd (exec lib (Try body handler) w))"
    proof (cases r1)
      case None
      with e1 u1 show ?thesis by simp
    next
      case (Some err)
      have "undisturbed w1 (snd (exec_block lib handler w1))"
        using "6.IH"(2)[OF e1[symmetric] Some] q by simp
      with u1 have "undisturbed w (snd (exec_block lib handler w1))" by (rule undisturbed_trans)
      with e1 Some show ?thesis by simp
    qed
  qed
next
  case (7 lib w)
  show ?case by simp
next
  case (8 lib s ss w)
  show ?case
  proof
    assume q: "list_all quiet_stmt (s # ss)"
    obtain r1 w1 where e1: "exec lib s w = (r1, w1)" by (cases "exec lib s w")
    have u1: "undisturbed w w1" using "8.IH"(1) q e1 by simp
    show "undisturbed w (snd (exec_block lib (s # ss) w))"
    proof (cases r1)
      case None
      have "undisturbed w1 (snd (exec_block lib ss w1))"
        using "8.IH"(2)[OF e1[symmetric] None] q by simp
      with u1 have "undisturbed w (snd (exec_block lib ss w1))" by (rule undisturbed_trans)
      with e1 None show ?thesis by simp
    next
      case (Some err)
      with e1 u1 show ?thesis by simp
    qed
  qed
qed

lemma run_cell_quiet:
  "list_all quiet_stmt (cell_stmts c) \<Longrightarrow> undisturbed w (snd (run_cell lib c w))"
  by (cases c) (simp_all add: exec_quiet)

subsection \<open>The calls a run makes are the calls the text shows\<close>

lemma globals_known_effect [simp]: "globals (known_effect q vs w) = globals w"
  by (simp add: known_effect_def split: option.splits)

lemma globals_call_function [simp]: "globals (snd (call_function lib q vs kvs w)) = globals w"
  by (cases "fst (lib q vs kvs w)")
     (simp_all add: call_function_def library_call_def Let_def split: option.splits list.splits)

lemma globals_eval:
  "globals (snd (eval lib e w)) = globals w"
  "globals (snd (eval_args lib es w)) = globals w"
  "globals (snd (eval_kws lib kws w)) = globals w"
  "globals (snd (eval_items lib items w)) = globals w"
proof (induction lib e w and lib es w and lib kws w and lib items w
       rule: eval_eval_args_eval_kws_eval_items.induct)
  case (6 lib f as kws w)
  then show ?case
    by (auto split: prod.splits sum.splits val.splits)
qed (auto split: option.splits prod.splits sum.splits)



















subsection \<open>Single cells and runs\<close>

lemma style_cell_run:
  assumes "map_of (globals w) ''az'' = Some (VRef [''arviz''])"
  shows "run_cell lib style_cell w =
     (case fst (lib [''arviz'', ''style'', ''use''] [VStr ''arviz-white''] [] w) of
        Inl e \<Rightarrow> (Some e, w\<lparr>rng := snd (lib [''arviz'', ''style'', ''use''] [VStr ''arviz-white''] [] w),
                             trace := trace w @ [LibCall [''arviz'', ''style'', ''use''] [VStr ''arviz-white''] [] (Inl e)]\<rparr>)
      | Inr v \<Rightarrow> (None, w\<lparr>rng := snd (lib [''arviz'', ''style'', ''use''] [VStr ''arviz-white''] [] w),
                           trace := trace w @ [LibCall [''arviz'', ''style'', ''use''] [VStr ''arviz-white''] [] (Inr v)],
                           style := style w @ [''arviz-white'']\<rparr>))"
  using assms
  by (simp add: cell_defs run_defs Let_def split: sum.splits)

lemma quiet_cells_4_2:
  "list_all (\<lambda>c. c = setup_cell_4_2 \<or> c = style_cell \<or> list_all quiet_stmt (cell_stmts c))
     SingleModelVisualizations"
  by (simp add: SingleModelVisualizations_def cell_defs state_changing_def)

lemma quiet_cells_5_1:
  "list_all (\<lambda>c. c = setup_cell_5_1 \<or> c = style_cell \<or> list_all quiet_stmt (cell_stmts c))
     ModelComparison"
  by (simp add: ModelComparison_def cell_defs state_changing_def)

text \<open>The first notebook run where the inference files are missing.\<close>

lemma missing_files_run:
  "run_notebook missing_files SingleModelVisualizations
     (fresh_kernel [''repo'', ''notebooks'', ''4_SingleModelResults''] 7) =
   (Some (FileNotFoundError ''inference_data/GreenPower.nc''),
    \<lparr>cwd = [''repo'', ''notebooks''], rng = Seeded 0 0, style = [''arviz-white''],
     globals = [(''plt'', VRef [''matplotlib'', ''pyplot'']), (''pd'', VRef [''pandas'']), (''np'', VRef [''numpy'']),
                (''az'', VRef [''arviz'']), (''os'', VRef [''os''])],
     trace = [LibCall [''arviz'', ''style'', ''use''] [VStr ''arviz-white''] [] (Inr (VObject 0)),
              LibCall [''arviz'', ''from_netcdf''] [VStr ''inference_data/GreenPower.nc''] []
                (Inl (FileNotFoundError ''inference_data/GreenPower.nc''))]\<rparr>)"
  by (simp add: SingleModelVisualizations_def setup_4_2_run fresh_kernel_def os_getcwd_def os_path_split_def
        style_cell_def from_netcdf_cell_def activity_cell_def run_defs missing_files_def installed_def Let_def)

subsection \<open>What the code of the notebooks reads as\<close>




section \<open>The claims\<close>

subsection \<open>C1: the hard computations are delegated\<close>




subsection \<open>C3: the library is called directly\<close>



subsection \<open>C4: what the cells do to the process\<close>

text \<open>
  C4, as amended.  The first two code cells of each notebook are its setup cell and the
  style cell, and they change the state of the process: the setup cell moves the working
  directory to its parent unless its last part is \<open>notebooks\<close> and seeds NumPy's global
  generator with 0, changing neither the plotting style nor calling a library; the style
  cell, run where \<open>az\<close> names ArviZ, calls the library once and at most adds
  \<open>arviz-white\<close> to the plotting styles, leaving the working directory alone.  Every
  other cell, whatever the library does and whatever state it is run in, leaves the
  working directory and the plotting style as they are, only adds calls to the trace, and
  leaves the generator as it is unless it calls a library.
\<close>

theorem process_state_changes:
  assumes "(nb = SingleModelVisualizations \<and> setup = setup_cell_4_2) \<or>
           (nb = ModelComparison \<and> setup = setup_cell_5_1)"
  shows "take 2 (code_cells nb) = [cell_stmts setup, cell_stmts style_cell] \<and>
     cwd (snd (run_cell lib setup w)) =
       (if snd (os_path_split (os_getcwd (cwd w))) = ''notebooks'' then cwd w else butlast (cwd w)) \<and>
     rng (snd (run_cell lib setup w)) = Seeded 0 0 \<and>
     style (snd (run_cell lib setup w)) = style w \<and>
     trace (snd (run_cell lib setup w)) = trace w \<and>
     map_of (globals (snd (run_cell lib setup w))) ''az'' = Some (VRef [''arviz'']) \<and>
     (map_of (globals v) ''az'' = Some (VRef [''arviz'']) \<longrightarrow>
        cwd (snd (run_cell lib style_cell v)) = cwd v \<and>
        (style (snd (run_cell lib style_cell v)) = style v \<or>
         style (snd (run_cell lib style_cell v)) = style v @ [''arviz-white'']) \<and>
        length (trace (snd (run_cell lib style_cell v))) = Suc (length (trace v))) \<and>
     (\<forall>c \<in> set nb. c \<noteq> setup \<longrightarrow> c \<noteq> style_cell \<longrightarrow> undisturbed u (snd (run_cell lib c u)))"
proof -
  have q: "list_all (\<lambda>c. c = setup \<or> c = style_cell \<or> list_all quiet_stmt (cell_stmts c)) nb"
    using assms quiet_cells_4_2 quiet_cells_5_1 by auto
  have rest: "\<forall>c \<in> set nb. c \<noteq> setup \<longrightarrow> c \<noteq> style_cell \<longrightarrow> undisturbed u (snd (run_cell lib c u))"
    using q by (auto simp: list_all_iff run_cell_quiet)
  have st: "map_of (globals v) ''az'' = Some (VRef [''arviz'']) \<longrightarrow>
        cwd (snd (run_cell lib style_cell v)) = cwd v \<and>
        (style (snd (run_cell lib style_cell v)) = style v \<or>
         style (snd (run_cell lib style_cell v)) = style v @ [''arviz-white'']) \<and>
        length (trace (snd (run_cell lib style_cell v))) = Suc (length (trace v))"
    by (auto simp: style_cell_run split: sum.splits)
  have first: "take 2 (code_cells nb) = [cell_stmts setup, cell_stmts style_cell]"
    using assms
    by (auto simp: code_cells_def SingleModelVisualizations_def ModelComparison_def cell_defs)
  have su: "cwd (snd (run_cell lib setup w)) =
       (if snd (os_path_split (os_getcwd (cwd w))) = ''notebooks'' then cwd w else butlast (cwd w)) \<and>
     rng (snd (run_cell lib setup w)) = Seeded 0 0 \<and>
     style (snd (run_cell lib setup w)) = style w \<and>
     trace (snd (run_cell lib setup w)) = trace w \<and>
     map_of (globals (snd (run_cell lib setup w))) ''az'' = Some (VRef [''arviz''])"
    using assms by (auto simp: setup_4_2_run setup_5_1_run)
  from first su st rest show ?thesis by blast
qed

text \<open>
  The theorem for the first notebook, started in its own directory, with the inference
  files missing: the setup cell ends in \<open>notebooks\<close> with the generator seeded, the style
  cell stays there, and the cell that loads \<open>GreenPower.nc\<close> disturbs nothing.
\<close>

theorem process_state_changes_witness:
  "from_netcdf_cell ''greenpower'' ''GreenPower.nc'' \<in> set SingleModelVisualizations \<and>
   from_netcdf_cell ''greenpower'' ''GreenPower.nc'' \<noteq> setup_cell_4_2 \<and>
   from_netcdf_cell ''greenpower'' ''GreenPower.nc'' \<noteq> style_cell \<and>
   cwd (snd (run_cell missing_files setup_cell_4_2 (fresh_kernel [''repo'', ''notebooks'', ''4_SingleModelResults''] 7))) =
     [''repo'', ''notebooks''] \<and>
   rng (snd (run_cell missing_files setup_cell_4_2 (fresh_kernel [''repo'', ''notebooks'', ''4_SingleModelResults''] 7))) =
     Seeded 0 0 \<and>
   map_of (globals (snd (run_cell missing_files setup_cell_4_2
      (fresh_kernel [''repo'', ''notebooks'', ''4_SingleModelResults''] 7)))) ''az'' = Some (VRef [''arviz'']) \<and>
   cwd (snd (run_cell missing_files style_cell (snd (run_cell missing_files setup_cell_4_2
      (fresh_kernel [''repo'', ''notebooks'', ''4_SingleModelResults''] 7))))) = [''repo'', ''notebooks''] \<and>
   undisturbed (fresh_kernel [''repo'', ''notebooks''] 7)
     (snd (run_cell missing_files (from_netcdf_cell ''greenpower'' ''GreenPower.nc'') (fresh_kernel [''repo'', ''notebooks''] 7)))"
proof -
  have m: "from_netcdf_cell ''greenpower'' ''GreenPower.nc'' \<in> set SingleModelVisualizations"
    "from_netcdf_cell ''greenpower'' ''GreenPower.nc'' \<noteq> setup_cell_4_2"
    "from_netcdf_cell ''greenpower'' ''GreenPower.nc'' \<noteq> style_cell"
    by (simp_all add: SingleModelVisualizations_def cell_defs)
  have b: "snd (os_path_split (os_getcwd (cwd (fresh_kernel [''repo'', ''notebooks'', ''4_SingleModelResults''] 7)))) \<noteq> ''notebooks''"
    "butlast (cwd (fresh_kernel [''repo'', ''notebooks'', ''4_SingleModelResults''] 7)) = [''repo'', ''notebooks'']"
    by (simp_all add: fresh_kernel_def os_getcwd_def os_path_split_def)
  from m b process_state_changes [of SingleModelVisualizations setup_cell_4_2 missing_files
          "fresh_kernel [''repo'', ''notebooks'', ''4_SingleModelResults''] 7"
          "snd (run_cell missing_files setup_cell_4_2 (fresh_kernel [''repo'', ''notebooks'', ''4_SingleModelResults''] 7))"
          "fresh_kernel [''repo'', ''notebooks''] 7"]
  show ?thesis by simp
qed

text \<open>
  C4 as stated (no cell modifies the working directory or the state of the generator)
  fails: the setup cell of the first notebook, started in the notebook's directory,
  changes both.
\<close>

theorem process_state_changes_counterexample:
  "setup_cell_4_2 \<in> set SingleModelVisualizations \<and>
   cwd (snd (run_cell installed setup_cell_4_2 (fresh_kernel [''repo'', ''notebooks'', ''4_SingleModelResults''] 7))) \<noteq>
     cwd (fresh_kernel [''repo'', ''notebooks'', ''4_SingleModelResults''] 7) \<and>
   rng (snd (run_cell installed setup_cell_4_2 (fresh_kernel [''repo'', ''notebooks'', ''4_SingleModelResults''] 7))) \<noteq>
     rng (fresh_kernel [''repo'', ''notebooks'', ''4_SingleModelResults''] 7)"
  by (simp add: setup_4_2_run fresh_kernel_def os_getcwd_def os_path_split_def SingleModelVisualizations_def)

subsection \<open>C5: a failure of a library ends the run\<close>

text \<open>
  C5.  No statement of either notebook is a \<open>try\<close>, and so, whatever the libraries do
  and whatever state a cell or a complete run starts in (with no failed call behind it):
  when a call into a library raises, it is the last call the cell or the run makes, and
  the cell or the run ends with the error the call raised, unchanged.  Nothing is caught,
  retried, translated or recovered from.
\<close>

theorem failures_propagate:
  assumes "list_all succeeded (trace w)"
    and "nb = SingleModelVisualizations \<or> nb = ModelComparison"
  shows "list_all try_free (top_level nb) \<and>
         (\<forall>c \<in> set nb. propagated (fst (run_cell lib c w)) (trace (snd (run_cell lib c w)))) \<and>
         propagated (fst (run_notebook lib nb w)) (trace (snd (run_notebook lib nb w)))"
proof -
  have tf: "list_all try_free (top_level nb)"
    using assms(2)
    by (auto simp: top_level_def SingleModelVisualizations_def ModelComparison_def cell_defs)
  from assms(1) have cl: "clean w" by (simp add: clean_def)
  have "stopped (run_cell lib c w)" if "c \<in> set nb" for c
  proof -
    from tf that have "list_all try_free (cell_stmts c)"
      by (auto simp: top_level_def list_all_iff)
    then show ?thesis using cl by (rule run_cell_stopped)
  qed
  then have cells: "\<forall>c \<in> set nb. propagated (fst (run_cell lib c w)) (trace (snd (run_cell lib c w)))"
    by (simp add: stopped_propagated)
  from tf cl have "stopped (run_notebook lib nb w)" by (rule run_notebook_stopped)
  with tf cells show ?thesis by (simp add: stopped_propagated)
qed

text \<open>
  The theorem for the first notebook with the inference files missing: the run ends with
  the \<open>FileNotFoundError\<close> of the first \<^verbatim>\<open>az.from_netcdf\<close>.
\<close>

theorem failures_propagate_witness:
  "list_all succeeded (trace (fresh_kernel [''repo'', ''notebooks'', ''4_SingleModelResults''] 7)) \<and>
   style_cell \<in> set SingleModelVisualizations \<and>
   propagated (fst (run_cell missing_files style_cell (fresh_kernel [''repo'', ''notebooks'', ''4_SingleModelResults''] 7)))
     (trace (snd (run_cell missing_files style_cell (fresh_kernel [''repo'', ''notebooks'', ''4_SingleModelResults''] 7)))) \<and>
   fst (run_notebook missing_files SingleModelVisualizations
          (fresh_kernel [''repo'', ''notebooks'', ''4_SingleModelResults''] 7)) =
     Some (FileNotFoundError ''inference_data/GreenPower.nc'') \<and>
   propagated (Some (FileNotFoundError ''inference_data/GreenPower.nc''))
     (trace (snd (run_notebook missing_files SingleModelVisualizations
          (fresh_kernel [''repo'', ''notebooks'', ''4_SingleModelResults''] 7))))"
proof -
  have c: "list_all succeeded (trace (fresh_kernel [''repo'', ''notebooks'', ''4_SingleModelResults''] 7))"
    by (simp add: fresh_kernel_def)
  have r: "fst (run_notebook missing_files SingleModelVisualizations
          (fresh_kernel [''repo'', ''notebooks'', ''4_SingleModelResults''] 7)) =
     Some (FileNotFoundError ''inference_data/GreenPower.nc'')"
    by (simp add: missing_files_run)
  have m: "style_cell \<in> set SingleModelVisualizations"
    by (simp add: SingleModelVisualizations_def)
  from failures_propagate [OF c, of SingleModelVisualizations missing_files] c r m
  show ?thesis by simp
qed

subsection \<open>C6: the entry points of the loads\<close>



subsection \<open>C7: the files the load calls name\<close>


subsection \<open>C8: the life of an inference result\<close>


subsection \<open>C9: running the working-directory setup twice\<close>

text \<open>
  C9, as amended.  Started in a working directory \<open>d\<close>, the setup cell of either notebook
  leaves the process in \<open>d\<close> when \<open>d\<close> is named \<open>notebooks\<close> and in the parent of \<open>d\<close>
  otherwise.  Running the cell a second time changes nothing exactly when \<open>d\<close> is named
  \<open>notebooks\<close>, or its parent is, or \<open>d\<close> is the root or a directory directly under the
  root (whose parent, the root, is its own parent); in every other case the second run
  ends one level above the first.
\<close>

theorem setup_cell_twice:
  assumes "path_ok (cwd w)" and "c = setup_cell_4_2 \<or> c = setup_cell_5_1"
  shows "cwd (snd (run_cell lib c w)) = (if named_notebooks (cwd w) then cwd w else butlast (cwd w)) \<and>
         ((cwd (snd (run_cell lib c (snd (run_cell lib c w)))) = cwd (snd (run_cell lib c w))) =
          (named_notebooks (cwd w) \<or> named_notebooks (butlast (cwd w)) \<or> length (cwd w) \<le> 1))"
proof -
  have once: "cwd (snd (run_cell lib c v)) = (if named_notebooks (cwd v) then cwd v else butlast (cwd v))"
    if "path_ok (cwd v)" for v
    using assms(2) that by (auto simp: setup_4_2_run setup_5_1_run in_notebooks_iff)
  have ok1: "path_ok (cwd (snd (run_cell lib c w)))"
    using once[OF assms(1)] assms(1) by (simp add: path_ok_butlast)
  have "(cwd (snd (run_cell lib c (snd (run_cell lib c w)))) = cwd (snd (run_cell lib c w))) =
         (named_notebooks (cwd w) \<or> named_notebooks (butlast (cwd w)) \<or> length (cwd w) \<le> 1)"
    unfolding once[OF ok1] once[OF assms(1)]
    by (auto simp: butlast_fixed butlast_same butlast_empty named_notebooks_def)
  with once[OF assms(1)] show ?thesis by simp
qed

text \<open>
  The theorem at \<open>/home/user/work\<close>, where neither the directory nor its parent is named
  \<open>notebooks\<close>: one run ends in \<open>/home/user\<close>, and a second run moves on.
\<close>

theorem setup_cell_twice_witness:
  "path_ok (cwd (fresh_kernel [''home'', ''user'', ''work''] 7)) \<and>
   cwd (snd (run_cell installed setup_cell_4_2 (fresh_kernel [''home'', ''user'', ''work''] 7))) = [''home'', ''user''] \<and>
   cwd (snd (run_cell installed setup_cell_4_2
          (snd (run_cell installed setup_cell_4_2 (fresh_kernel [''home'', ''user'', ''work''] 7))))) \<noteq>
   cwd (snd (run_cell installed setup_cell_4_2 (fresh_kernel [''home'', ''user'', ''work''] 7)))"
  using setup_cell_twice [of "fresh_kernel [''home'', ''user'', ''work''] 7" setup_cell_4_2 installed]
  by (simp add: setup_4_2_run fresh_kernel_def path_ok_def named_notebooks_def os_getcwd_def
        os_path_split_def)

text \<open>
  C9 as stated fails in \<open>/tmp\<close>: neither \<open>/tmp\<close> nor its parent, the root, is named
  \<open>notebooks\<close>, yet the second run leaves the process where the first one did, in the root.
\<close>

theorem setup_cell_twice_counterexample:
  "\<not> named_notebooks (cwd (fresh_kernel [''tmp''] 7)) \<and>
   \<not> named_notebooks (butlast (cwd (fresh_kernel [''tmp''] 7))) \<and>
   cwd (snd (run_cell installed setup_cell_4_2 (snd (run_cell installed setup_cell_4_2 (fresh_kernel [''tmp''] 7))))) =
   cwd (snd (run_cell installed setup_cell_4_2 (fresh_kernel [''tmp''] 7)))"
  by (simp add: setup_4_2_run fresh_kernel_def named_notebooks_def os_getcwd_def os_path_split_def)

subsection \<open>C10: the seed and two runs\<close>

text \<open>
  C10, as amended.  The setup cell of either notebook seeds NumPy's global generator with
  0 before any call into a library that could draw from it: in the second notebook only
  imports come before the seed, in the first the imports and the working-directory
  guard, whose calls are calls of \<open>os\<close>; in both, the cell has made no library call and
  the generator is seeded with 0 when it ends.  So two complete runs of a notebook with
  the same libraries and files, started in states that differ only in the state of the
  generator, end with the same result in the same state, with the same calls, arguments
  and answers in their traces.
\<close>

theorem seeded_runs_agree:
  "run_notebook lib SingleModelVisualizations (w\<lparr>rng := r1\<rparr>) =
   run_notebook lib SingleModelVisualizations (w\<lparr>rng := r2\<rparr>) \<and>
   run_notebook lib ModelComparison (w\<lparr>rng := r1\<rparr>) =
   run_notebook lib ModelComparison (w\<lparr>rng := r2\<rparr>) \<and>
   rng (snd (run_cell lib setup_cell_4_2 w)) = Seeded 0 0 \<and>
   trace (snd (run_cell lib setup_cell_4_2 w)) = trace w \<and>
   rng (snd (run_cell lib setup_cell_5_1 w)) = Seeded 0 0 \<and>
   trace (snd (run_cell lib setup_cell_5_1 w)) = trace w \<and>
   calls_before_seed ModelComparison setup_cell_5_1 = [] \<and>
   calls_before_seed SingleModelVisualizations setup_cell_4_2 =
     [Some [''os'', ''path'', ''split''], Some [''os'', ''getcwd''], Some [''os'', ''chdir''],
      Some [''os'', ''path'', ''join'']]"
proof -
  have "calls_before_seed ModelComparison setup_cell_5_1 = []"
    by code_simp
  moreover have "calls_before_seed SingleModelVisualizations setup_cell_4_2 =
     [Some [''os'', ''path'', ''split''], Some [''os'', ''getcwd''], Some [''os'', ''chdir''],
      Some [''os'', ''path'', ''join'']]"
    by code_simp
  ultimately show ?thesis
    by (simp add: SingleModelVisualizations_def ModelComparison_def setup_4_2_run setup_5_1_run)
qed

text \<open>
  C10 as stated (the seed comes before any other computation) fails for the first
  notebook: its setup cell runs the working-directory guard, with its calls of
  \<^verbatim>\<open>os.getcwd\<close> and \<^verbatim>\<open>os.path.split\<close>, before it seeds the generator.
\<close>

theorem seeded_runs_agree_counterexample:
  "chdir_guard \<in> set (before_seed setup_cell_4_2) \<and>
   Some [''os'', ''getcwd''] \<in> set (calls_before_seed SingleModelVisualizations setup_cell_4_2) \<and>
   calls_before_seed SingleModelVisualizations setup_cell_4_2 \<noteq> []"
  by code_simp

end
